theory Spec2Isabelle
  imports Main
begin

section \<open>JavaScript values and helpers\<close>

text \<open>
  The values the sanitizer walks. A string is the list of its code units (a \<open>char\<close>
  stands for one; the code never looks inside a code unit), so \<open>length\<close> is
  JavaScript's \<open>.length\<close> and \<open>take\<close> is \<open>substring(0, n)\<close>. The payload of
  \<open>JNum\<close> is never inspected by the code. An object \<open>JObj es\<close> is given by the list
  \<open>Object.entries\<close> returns for it (own enumerable string-keyed properties, in property
  order); its keys are pairwise distinct, see \<open>wellFormed\<close>. \<open>JDate\<close> and \<open>JRegExp\<close> are
  plain \<open>Date\<close> and \<open>RegExp\<close> instances: \<open>typeof\<close> gives \<open>'object'\<close>, \<open>Array.isArray\<close> is
  false and \<open>Object.entries\<close> is empty. Arrays are dense.
\<close>

datatype jsval =
    JUndefined
  | JNull
  | JBool bool
  | JNum int
  | JStr string
  | JArr "jsval list"
  | JObj "(string \<times> jsval) list"
  | JDate int
  | JRegExp string string

fun wellFormed :: "jsval \<Rightarrow> bool" where
  "wellFormed (JArr items) = list_all wellFormed items"
| "wellFormed (JObj es) = (distinct (map fst es) \<and> list_all (\<lambda>e. wellFormed (snd e)) es)"
| "wellFormed _ = True"

text \<open>Template literals print numbers in decimal (integers only are modelled).\<close>

definition digit :: "nat \<Rightarrow> char" where
  "digit d = ''0123456789'' ! d"

function string_of_nat :: "nat \<Rightarrow> string" where
  "string_of_nat n = (if n < 10 then [digit n] else string_of_nat (n div 10) @ [digit (n mod 10)])"
  by pat_completeness auto
termination
  by (relation "measure id") auto

declare string_of_nat.simps [simp del]

definition string_of_int :: "int \<Rightarrow> string" where
  "string_of_int i = (if i < 0 then ''-'' @ string_of_nat (nat (- i)) else string_of_nat (nat i))"

text \<open>
  An optional parameter \<open>fieldName?: string\<close> is \<open>None\<close> when undefined. In a condition
  JavaScript treats both undefined and the empty string as false.
\<close>

definition truthy :: "string option \<Rightarrow> bool" where
  "truthy fieldName = (case fieldName of None \<Rightarrow> False | Some s \<Rightarrow> s \<noteq> [])"

definition orUnknown :: "string option \<Rightarrow> string" where
  "orUnknown fieldName = (case fieldName of None \<Rightarrow> ''unknown'' | Some s \<Rightarrow> if s = [] then ''unknown'' else s)"

text \<open>
  Creating or overwriting an own data property (what object spread does), and the
  assignment \<open>obj[key] = v\<close> on an object created by \<open>{}\<close>: for the key \<open>__proto__\<close> the
  assignment runs the inherited setter of \<open>Object.prototype\<close>, which creates no own
  property (it replaces the prototype when \<open>v\<close> is an object or null and does nothing
  otherwise; the prototype is not part of the model).
\<close>

definition defineProp :: "(string \<times> 'a) list \<Rightarrow> string \<Rightarrow> 'a \<Rightarrow> (string \<times> 'a) list" where
  "defineProp obj key v =
     (if key \<in> fst ` set obj then map (\<lambda>(k, x). if k = key then (k, v) else (k, x)) obj
      else obj @ [(key, v)])"

definition assignProp :: "(string \<times> 'a) list \<Rightarrow> string \<Rightarrow> 'a \<Rightarrow> (string \<times> 'a) list" where
  "assignProp obj key v = (if key = ''__proto__'' then obj else defineProp obj key v)"

definition spreadObj :: "(string \<times> 'a) list \<Rightarrow> (string \<times> 'a) list \<Rightarrow> (string \<times> 'a) list" where
  "spreadObj target source = foldl (\<lambda>acc (k, v). defineProp acc k v) target source"

section \<open>Configuration (types/sanitization.ts, config/sanitizationConfigs.ts)\<close>

text \<open>
  Every field of \<open>SanitizationConfig\<close> is optional: a property is absent, present with the
  value undefined, or present with a value.
\<close>

datatype 'a optField = Absent | Undefined | Val 'a

record SanitizationConfig =
  allowedTags :: "string list optField"
  allowedAttributes :: "(string \<times> string list) list optField"
  stripIgnoreTag :: "bool optField"
  stripIgnoreTagBody :: "bool optField"
  allowEmptyTags :: "bool optField"
  maxTagDepth :: "int optField"
  maxStringLength :: "int optField"

definition BASE_CONFIG :: SanitizationConfig where
  "BASE_CONFIG = \<lparr>
     allowedTags = Val [''b'', ''i'', ''em'', ''strong'', ''p'', ''br'', ''ul'', ''ol'', ''li'', ''a''],
     allowedAttributes = Val [(''a'', [''href'', ''title''])],
     stripIgnoreTag = Val True,
     stripIgnoreTagBody = Val False,
     allowEmptyTags = Val False,
     maxTagDepth = Val 10,
     maxStringLength = Val 10000 \<rparr>"

definition STRICT_CONFIG :: SanitizationConfig where
  "STRICT_CONFIG = \<lparr>
     allowedTags = Val [''b'', ''i'', ''em'', ''strong''],
     allowedAttributes = Val [],
     stripIgnoreTag = Val True,
     stripIgnoreTagBody = Val True,
     allowEmptyTags = Val False,
     maxTagDepth = Val 5,
     maxStringLength = Val 1000 \<rparr>"

definition LIBERAL_CONFIG :: SanitizationConfig where
  "LIBERAL_CONFIG = \<lparr>
     allowedTags = Val [
       ''h1'', ''h2'', ''h3'', ''h4'', ''h5'', ''h6'', ''p'', ''br'', ''hr'',
       ''b'', ''i'', ''em'', ''strong'', ''u'', ''s'', ''sub'', ''sup'',
       ''ul'', ''ol'', ''li'', ''a'', ''img'',
       ''blockquote'', ''code'', ''pre'',
       ''table'', ''thead'', ''tbody'', ''tr'', ''th'', ''td'',
       ''div'', ''span''],
     allowedAttributes = Val [
       (''a'', [''href'', ''title'', ''target'', ''rel'']),
       (''img'', [''src'', ''alt'', ''title'', ''width'', ''height'']),
       (''blockquote'', [''cite'']),
       (''table'', [''class'']),
       (''th'', [''scope'']),
       (''td'', [''colspan'', ''rowspan''])],
     stripIgnoreTag = Absent,
     stripIgnoreTagBody = Absent,
     allowEmptyTags = Val True,
     maxTagDepth = Val 20,
     maxStringLength = Val 50000 \<rparr>"

definition BLOG_CONFIG :: SanitizationConfig where
  "BLOG_CONFIG = \<lparr>
     allowedTags = Val [
       ''h2'', ''h3'', ''h4'', ''h5'', ''h6'', ''p'', ''br'',
       ''b'', ''i'', ''em'', ''strong'', ''u'',
       ''ul'', ''ol'', ''li'', ''a'', ''img'',
       ''blockquote'', ''code'', ''div'', ''span''],
     allowedAttributes = Val [
       (''a'', [''href'', ''title'', ''rel'']),
       (''img'', [''src'', ''alt'', ''title'']),
       (''blockquote'', [''cite'']),
       (''div'', [''class'']),
       (''span'', [''class''])],
     stripIgnoreTag = Val True,
     stripIgnoreTagBody = Absent,
     allowEmptyTags = Val False,
     maxTagDepth = Val 15,
     maxStringLength = Val 25000 \<rparr>"

definition COMMENT_CONFIG :: SanitizationConfig where
  "COMMENT_CONFIG = \<lparr>
     allowedTags = Val [''b'', ''i'', ''em'', ''strong'', ''br'', ''a''],
     allowedAttributes = Val [(''a'', [''href'', ''title''])],
     stripIgnoreTag = Val True,
     stripIgnoreTagBody = Val True,
     allowEmptyTags = Val False,
     maxTagDepth = Val 3,
     maxStringLength = Val 2000 \<rparr>"

definition EMAIL_CONFIG :: SanitizationConfig where
  "EMAIL_CONFIG = \<lparr>
     allowedTags = Val [''p'', ''br'', ''b'', ''i'', ''em'', ''strong'', ''a''],
     allowedAttributes = Val [(''a'', [''href'', ''title''])],
     stripIgnoreTag = Val True,
     stripIgnoreTagBody = Val True,
     allowEmptyTags = Val False,
     maxTagDepth = Val 5,
     maxStringLength = Val 5000 \<rparr>"

definition ADMIN_CONFIG :: SanitizationConfig where
  "ADMIN_CONFIG = \<lparr>
     allowedTags = Val [
       ''h1'', ''h2'', ''h3'', ''h4'', ''h5'', ''h6'', ''p'', ''br'', ''hr'',
       ''b'', ''i'', ''em'', ''strong'', ''u'', ''s'', ''sub'', ''sup'',
       ''ul'', ''ol'', ''li'', ''a'', ''img'',
       ''blockquote'', ''code'', ''pre'',
       ''table'', ''thead'', ''tbody'', ''tr'', ''th'', ''td'',
       ''div'', ''span'', ''section'', ''article'',
       ''form'', ''input'', ''textarea'', ''select'', ''option'',
       ''button'', ''label''],
     allowedAttributes = Val [
       (''a'', [''href'', ''title'', ''target'', ''rel'']),
       (''img'', [''src'', ''alt'', ''title'', ''width'', ''height'', ''class'']),
       (''blockquote'', [''cite'']),
       (''table'', [''class'']),
       (''th'', [''scope'', ''class'']),
       (''td'', [''colspan'', ''rowspan'', ''class'']),
       (''div'', [''class'', ''id'']),
       (''span'', [''class'', ''id'']),
       (''form'', [''action'', ''method'']),
       (''input'', [''type'', ''name'', ''value'', ''placeholder'', ''required'']),
       (''textarea'', [''name'', ''placeholder'', ''required'', ''rows'', ''cols'']),
       (''select'', [''name'', ''required'']),
       (''option'', [''value'']),
       (''button'', [''type'', ''class'']),
       (''label'', [''for''])],
     stripIgnoreTag = Absent,
     stripIgnoreTagBody = Absent,
     allowEmptyTags = Val True,
     maxTagDepth = Val 25,
     maxStringLength = Val 100000 \<rparr>"

text \<open>
  \<open>SANITIZATION_CONFIGS\<close> is an object literal, so \<open>SANITIZATION_CONFIGS[name]\<close> finds its
  seven own properties and, failing those, the properties every object inherits from
  \<open>Object.prototype\<close>: functions, and for \<open>__proto__\<close> the prototype object itself.
\<close>

definition SANITIZATION_CONFIGS :: "(string \<times> SanitizationConfig) list" where
  "SANITIZATION_CONFIGS = [
     (''base'', BASE_CONFIG),
     (''strict'', STRICT_CONFIG),
     (''liberal'', LIBERAL_CONFIG),
     (''blog'', BLOG_CONFIG),
     (''comment'', COMMENT_CONFIG),
     (''email'', EMAIL_CONFIG),
     (''admin'', ADMIN_CONFIG)]"

definition objectPrototypeKeys :: "string list" where
  "objectPrototypeKeys = [
     ''constructor'', ''__defineGetter__'', ''__defineSetter__'', ''hasOwnProperty'',
     ''__lookupGetter__'', ''__lookupSetter__'', ''isPrototypeOf'', ''propertyIsEnumerable'',
     ''toString'', ''valueOf'', ''__proto__'', ''toLocaleString'']"

text \<open>The object with no own enumerable property, read as a \<open>SanitizationConfig\<close>.\<close>

definition emptyConfig :: SanitizationConfig where
  "emptyConfig = \<lparr>
     allowedTags = Absent, allowedAttributes = Absent, stripIgnoreTag = Absent,
     stripIgnoreTagBody = Absent, allowEmptyTags = Absent, maxTagDepth = Absent,
     maxStringLength = Absent \<rparr>"

datatype error =
    Error string
  | TypeError string
  | SanitizationError string "string option"

definition errorMessage :: "error \<Rightarrow> string" where
  "errorMessage e = (case e of Error m \<Rightarrow> m | TypeError m \<Rightarrow> m | SanitizationError m f \<Rightarrow> m)"

text \<open>
  \<open>getConfig\<close>: the lookup, the guard \<open>if (!config) throw\<close>, and the shallow copy
  \<open>{ ...config }\<close>. An inherited function or prototype object is truthy and has no own
  enumerable property, so its copy is the empty object.
\<close>

definition getConfig :: "string \<Rightarrow> error + SanitizationConfig" where
  "getConfig name =
     (case map_of SANITIZATION_CONFIGS name of
        Some config \<Rightarrow> Inr config
      | None \<Rightarrow>
          if name \<in> set objectPrototypeKeys then Inr emptyConfig
          else Inl (Error (''Unknown sanitization config: '' @ name)))"

definition propObj :: "(string \<times> 'a) list optField \<Rightarrow> (string \<times> 'a) list" where
  "propObj p = (case p of Val obj \<Rightarrow> obj | _ \<Rightarrow> [])"

definition spreadProp :: "'a optField \<Rightarrow> 'a optField \<Rightarrow> 'a optField" where
  "spreadProp b ov = (case ov of Absent \<Rightarrow> b | _ \<Rightarrow> ov)"

definition createCustomConfig ::
  "string + SanitizationConfig \<Rightarrow> SanitizationConfig \<Rightarrow> error + SanitizationConfig" where
  "createCustomConfig base overrides =
     (case (case base of Inl name \<Rightarrow> getConfig name | Inr config \<Rightarrow> Inr config) of
        Inl e \<Rightarrow> Inl e
      | Inr baseConfig \<Rightarrow> Inr \<lparr>
          allowedTags = spreadProp (allowedTags baseConfig) (allowedTags overrides),
          allowedAttributes =
            Val (spreadObj (propObj (allowedAttributes baseConfig))
                           (propObj (allowedAttributes overrides))),
          stripIgnoreTag = spreadProp (stripIgnoreTag baseConfig) (stripIgnoreTag overrides),
          stripIgnoreTagBody = spreadProp (stripIgnoreTagBody baseConfig) (stripIgnoreTagBody overrides),
          allowEmptyTags = spreadProp (allowEmptyTags baseConfig) (allowEmptyTags overrides),
          maxTagDepth = spreadProp (maxTagDepth baseConfig) (maxTagDepth overrides),
          maxStringLength = spreadProp (maxStringLength baseConfig) (maxStringLength overrides) \<rparr>)"

section \<open>The sanitizer (utils/sanitizer.ts)\<close>

definition SENSITIVE_FIELDS :: "string list" where
  "SENSITIVE_FIELDS = [
     ''password'', ''confirmPassword'', ''passwordConfirm'', ''adminPassword'',
     ''token'', ''accessToken'', ''refreshToken'', ''apiKey'', ''secret'', ''privateKey'',
     ''jwt'', ''sessionId'', ''csrfToken'', ''authToken'']"

text \<open>The constructor's \<open>Required<SanitizationConfig>\<close>: \<open>||\<close> and \<open>??\<close> supply the defaults.\<close>

record RequiredConfig =
  cfg_allowedTags :: "string list"
  cfg_allowedAttributes :: "(string \<times> string list) list"
  cfg_stripIgnoreTag :: bool
  cfg_stripIgnoreTagBody :: bool
  cfg_allowEmptyTags :: bool
  cfg_maxTagDepth :: int
  cfg_maxStringLength :: int

definition orDefault :: "'a optField \<Rightarrow> 'a \<Rightarrow> 'a" where
  "orDefault p d = (case p of Val v \<Rightarrow> v | _ \<Rightarrow> d)"

definition Sanitizer :: "SanitizationConfig \<Rightarrow> RequiredConfig" where
  "Sanitizer config = \<lparr>
     cfg_allowedTags = orDefault (allowedTags config) [],
     cfg_allowedAttributes = orDefault (allowedAttributes config) [],
     cfg_stripIgnoreTag = orDefault (stripIgnoreTag config) True,
     cfg_stripIgnoreTagBody = orDefault (stripIgnoreTagBody config) False,
     cfg_allowEmptyTags = orDefault (allowEmptyTags config) False,
     cfg_maxTagDepth = orDefault (maxTagDepth config) 10,
     cfg_maxStringLength = orDefault (maxStringLength config) 10000 \<rparr>"

text \<open>
  The private \<open>SanitizationMetadata\<close> accumulator (\<open>originalSize\<close> and \<open>finalSize\<close> are written
  once per call, never read by the code and not returned; they are left out) and the
  returned \<open>SanitizationResult\<close>, whose \<open>errors\<close> is \<open>None\<close> when undefined.
\<close>

record SanitizationMetadata =
  md_sanitized :: bool
  md_warnings :: "string list"
  md_errors :: "string list"
  fieldsModified :: "string list"

record SanitizationResult =
  data :: jsval
  sanitized :: bool
  warnings :: "string list"
  errors :: "string list option"

definition initialMetadata :: SanitizationMetadata where
  "initialMetadata = \<lparr> md_sanitized = False, md_warnings = [], md_errors = [], fieldsModified = [] \<rparr>"

text \<open>
  The Markup Filter is \<open>DOMPurify.sanitize(input, purifyConfig)\<close>, a capability outside the
  repository: a parameter of the model that returns the filtered string or throws, either
  an \<open>Error\<close> with a message or some other value.
\<close>

record purifyConfig =
  ALLOWED_TAGS :: "string list"
  ALLOWED_ATTR :: "string list"
  KEEP_CONTENT :: bool
  ALLOW_EMPTY_TAGS :: bool

datatype thrown = ThrownError string | ThrownOther

type_synonym markupFilter = "purifyConfig \<Rightarrow> string \<Rightarrow> thrown + string"

definition mkPurifyConfig :: "RequiredConfig \<Rightarrow> purifyConfig" where
  "mkPurifyConfig cfg = \<lparr>
     ALLOWED_TAGS = cfg_allowedTags cfg,
     ALLOWED_ATTR = concat (map snd (cfg_allowedAttributes cfg)),
     KEEP_CONTENT = (\<not> cfg_stripIgnoreTagBody cfg),
     ALLOW_EMPTY_TAGS = cfg_allowEmptyTags cfg \<rparr>"

definition truncationWarning :: "string option \<Rightarrow> int \<Rightarrow> int \<Rightarrow> string" where
  "truncationWarning fieldName originalLength maxLen =
     ''String in field '' @ [CHR 0x27] @ orUnknown fieldName @ [CHR 0x27] @ '' truncated from ''
       @ string_of_int originalLength @ '' to '' @ string_of_int maxLen @ '' characters''"

definition failureMessage :: "string option \<Rightarrow> thrown \<Rightarrow> string" where
  "failureMessage fieldName err =
     ''Failed to sanitize string in field '' @ [CHR 0x27] @ orUnknown fieldName @ [CHR 0x27] @ '': ''
       @ (case err of ThrownError m \<Rightarrow> m | ThrownOther \<Rightarrow> ''Unknown error'')"

text \<open>\<open>input.substring(0, n)\<close>: a negative \<open>n\<close> counts as 0.\<close>

definition substring0 :: "string \<Rightarrow> int \<Rightarrow> string" where
  "substring0 input n = take (nat n) input"

text \<open>
  \<open>Sanitizer.sanitizeString\<close>. The metadata is returned on both outcomes: the \<open>catch\<close> block
  appends to \<open>errors\<close> before it throws, and a truncation warning pushed before the filter
  failed stays in the list.
\<close>

definition Sanitizer_sanitizeString ::
  "markupFilter \<Rightarrow> RequiredConfig \<Rightarrow> string \<Rightarrow> string option \<Rightarrow> SanitizationMetadata
     \<Rightarrow> (error + string) \<times> SanitizationMetadata" where
  "Sanitizer_sanitizeString F cfg input fieldName md =
     (let originalLength = int (length input);
          tooLong = (originalLength > cfg_maxStringLength cfg);
          md1 = (if tooLong
                 then md\<lparr> md_warnings := md_warnings md
                            @ [truncationWarning fieldName originalLength (cfg_maxStringLength cfg)],
                          md_sanitized := True \<rparr>
                 else md);
          input1 = (if tooLong then substring0 input (cfg_maxStringLength cfg) else input)
      in case F (mkPurifyConfig cfg) input1 of
           Inr out \<Rightarrow>
             (Inr out,
              if out \<noteq> input1
              then md1\<lparr> md_sanitized := True,
                        fieldsModified := (if truthy fieldName
                                           then fieldsModified md1 @ [the fieldName]
                                           else fieldsModified md1) \<rparr>
              else md1)
         | Inl err \<Rightarrow>
             (let message = failureMessage fieldName err
              in (Inl (SanitizationError message fieldName),
                  md1\<lparr> md_errors := md_errors md1 @ [message] \<rparr>)))"

definition isSensitive :: "string option \<Rightarrow> bool" where
  "isSensitive fieldName = (truthy fieldName \<and> the fieldName \<in> set SENSITIVE_FIELDS)"

definition indexFieldName :: "string option \<Rightarrow> nat \<Rightarrow> string" where
  "indexFieldName fieldName index =
     (if truthy fieldName then the fieldName @ ''['' @ string_of_nat index @ '']''
      else ''['' @ string_of_nat index @ '']'')"

definition fullFieldName :: "string option \<Rightarrow> string \<Rightarrow> string" where
  "fullFieldName fieldName key =
     (if truthy fieldName then the fieldName @ ''.'' @ key else key)"

text \<open>
  \<open>Sanitizer.sanitizeValue\<close>, with \<open>value.map\<close> as \<open>sanitizeItems\<close> (the index counts up) and
  the \<open>for\<close> loop over \<open>Object.entries(value)\<close> as \<open>sanitizeEntries\<close> (the object being built
  is the accumulator). A throw in a callee leaves the loop at once.
\<close>

fun Sanitizer_sanitizeValue ::
      "markupFilter \<Rightarrow> RequiredConfig \<Rightarrow> jsval \<Rightarrow> string option \<Rightarrow> SanitizationMetadata
         \<Rightarrow> (error + jsval) \<times> SanitizationMetadata"
  and sanitizeItems ::
      "markupFilter \<Rightarrow> RequiredConfig \<Rightarrow> jsval list \<Rightarrow> nat \<Rightarrow> string option \<Rightarrow> SanitizationMetadata
         \<Rightarrow> (error + jsval list) \<times> SanitizationMetadata"
  and sanitizeEntries ::
      "markupFilter \<Rightarrow> RequiredConfig \<Rightarrow> (string \<times> jsval) list \<Rightarrow> string option
         \<Rightarrow> (string \<times> jsval) list \<Rightarrow> SanitizationMetadata
         \<Rightarrow> (error + (string \<times> jsval) list) \<times> SanitizationMetadata"
where
  "Sanitizer_sanitizeValue F cfg v fieldName md =
     (if v = JNull \<or> v = JUndefined then (Inr v, md)
      else if isSensitive fieldName then (Inr v, md)
      else case v of
          JStr s \<Rightarrow>
            (case Sanitizer_sanitizeString F cfg s fieldName md of
               (Inl e, md') \<Rightarrow> (Inl e, md')
             | (Inr out, md') \<Rightarrow> (Inr (JStr out), md'))
        | JArr items \<Rightarrow>
            (case sanitizeItems F cfg items 0 fieldName md of
               (Inl e, md') \<Rightarrow> (Inl e, md')
             | (Inr items', md') \<Rightarrow> (Inr (JArr items'), md'))
        | JObj es \<Rightarrow>
            (case sanitizeEntries F cfg es fieldName [] md of
               (Inl e, md') \<Rightarrow> (Inl e, md')
             | (Inr sanitizedObj, md') \<Rightarrow> (Inr (JObj sanitizedObj), md'))
        | JDate t \<Rightarrow> (Inr (JObj []), md)
        | JRegExp src flags \<Rightarrow> (Inr (JObj []), md)
        | _ \<Rightarrow> (Inr v, md))"
| "sanitizeItems F cfg [] index fieldName md = (Inr [], md)"
| "sanitizeItems F cfg (item # rest) index fieldName md =
     (case Sanitizer_sanitizeValue F cfg item (Some (indexFieldName fieldName index)) md of
        (Inl e, md') \<Rightarrow> (Inl e, md')
      | (Inr item', md') \<Rightarrow>
          (case sanitizeItems F cfg rest (index + 1) fieldName md' of
             (Inl e, md'') \<Rightarrow> (Inl e, md'')
           | (Inr rest', md'') \<Rightarrow> (Inr (item' # rest'), md'')))"
| "sanitizeEntries F cfg [] fieldName sanitizedObj md = (Inr sanitizedObj, md)"
| "sanitizeEntries F cfg ((key, val) # rest) fieldName sanitizedObj md =
     (case Sanitizer_sanitizeValue F cfg val (Some (fullFieldName fieldName key)) md of
        (Inl e, md') \<Rightarrow> (Inl e, md')
      | (Inr val', md') \<Rightarrow>
          sanitizeEntries F cfg rest fieldName (assignProp sanitizedObj key val') md')"

text \<open>
  \<open>Sanitizer.sanitize\<close>. \<open>JSON.stringify(input).length\<close> is evaluated before the \<open>try\<close>:
  \<open>JSON.stringify(undefined)\<close> is undefined and reading its \<open>length\<close> throws a
  \<open>TypeError\<close>, with the metadata still the constructor's. For every other value of the
  model the two \<open>JSON.stringify\<close> calls return strings. The second component is the
  sanitizer's metadata after the call.
\<close>

definition Sanitizer_sanitize ::
  "markupFilter \<Rightarrow> RequiredConfig \<Rightarrow> jsval \<Rightarrow> (error + SanitizationResult) \<times> SanitizationMetadata" where
  "Sanitizer_sanitize F cfg input =
     (if input = JUndefined
      then (Inl (TypeError ''Cannot read properties of undefined''), initialMetadata)
      else case Sanitizer_sanitizeValue F cfg input None initialMetadata of
          (Inr sanitizedData, md) \<Rightarrow>
            (Inr \<lparr> data = sanitizedData,
                   sanitized = md_sanitized md,
                   warnings = md_warnings md,
                   errors = (if md_errors md \<noteq> [] then Some (md_errors md) else None) \<rparr>, md)
        | (Inl e, md) \<Rightarrow>
            (case e of
               SanitizationError m f \<Rightarrow> (Inl e, md)
             | _ \<Rightarrow> (Inl (SanitizationError (''Sanitization failed: '' @ errorMessage e) None), md)))"

definition sanitizeRequestData ::
  "markupFilter \<Rightarrow> jsval \<Rightarrow> SanitizationConfig \<Rightarrow> error + SanitizationResult" where
  "sanitizeRequestData F d config = fst (Sanitizer_sanitize F (Sanitizer config) d)"

definition sanitizeString ::
  "markupFilter \<Rightarrow> string \<Rightarrow> SanitizationConfig \<Rightarrow> error + SanitizationResult" where
  "sanitizeString F input config = fst (Sanitizer_sanitize F (Sanitizer config) (JStr input))"

section \<open>Auxiliary notions for the properties\<close>

text \<open>The string \<open>Sanitizer.sanitizeString\<close> hands to the filter.\<close>

definition truncateInput :: "RequiredConfig \<Rightarrow> string \<Rightarrow> string" where
  "truncateInput cfg input =
     (if int (length input) > cfg_maxStringLength cfg then substring0 input (cfg_maxStringLength cfg)
      else input)"



text \<open>
  Two properties a filter may have under the configuration of a sanitizer: filtering its
  own output changes nothing, and a string within the length limit stays within it.
\<close>

definition filterIdempotent :: "markupFilter \<Rightarrow> RequiredConfig \<Rightarrow> bool" where
  "filterIdempotent F cfg =
     (\<forall>s out. F (mkPurifyConfig cfg) s = Inr out \<longrightarrow> F (mkPurifyConfig cfg) out = Inr out)"

definition filterWithinLimit :: "markupFilter \<Rightarrow> RequiredConfig \<Rightarrow> bool" where
  "filterWithinLimit F cfg =
     (\<forall>s out. F (mkPurifyConfig cfg) s = Inr out \<longrightarrow> length s \<le> nat (cfg_maxStringLength cfg)
        \<longrightarrow> length out \<le> nat (cfg_maxStringLength cfg))"

subsection \<open>Concrete filters, configurations and inputs\<close>

text \<open>
  Filters to run the sanitizer on: one that returns its input and one that writes every
  \<open><\<close> as the entity \<open>&lt;\<close>, as a serializer of text nodes does.
\<close>

definition identityFilter :: markupFilter where
  "identityFilter pc s = Inr s"

definition escapingFilter :: markupFilter where
  "escapingFilter pc s = Inr (concat (map (\<lambda>c. if c = CHR ''<'' then ''&lt;'' else [c]) s))"

definition shortConfig :: SanitizationConfig where
  "shortConfig = emptyConfig\<lparr> maxStringLength := Val 3 \<rparr>"

definition nestedPasswordInput :: jsval where
  "nestedPasswordInput = JObj [(''user'', JObj [(''password'', JStr ''secret'')])]"

definition attrsOnAnchor :: SanitizationConfig where
  "attrsOnAnchor = emptyConfig\<lparr>
     allowedTags := Val [''a'', ''img''],
     allowedAttributes := Val [(''a'', [''href'', ''src'']), (''img'', [])] \<rparr>"

definition attrsOnImage :: SanitizationConfig where
  "attrsOnImage = emptyConfig\<lparr>
     allowedTags := Val [''a'', ''img''],
     allowedAttributes := Val [(''a'', []), (''img'', [''href'', ''src''])] \<rparr>"


definition strippingFilter :: markupFilter where
  "strippingFilter pc s = Inr (filter (\<lambda>c. c \<noteq> CHR ''<'') s)"


definition markupInput :: jsval where
  "markupInput = JObj [(''bio'', JStr ''<b>hello''), (''tags'', JArr [JStr ''<i>'', JNum 7])]"

definition imageOverrides :: SanitizationConfig where
  "imageOverrides = emptyConfig\<lparr>
     allowedAttributes := Val [(''img'', [''src'']), (''a'', [''href''])],
     maxStringLength := Val 1000 \<rparr>"

subsection \<open>Positions\<close>

text \<open>
  A position in a value is a list of steps, each an own key of an object or an index of an
  array. \<open>valueAt\<close> reads the value at a position. \<open>leafAt\<close> follows
  \<open>Sanitizer.sanitizeValue\<close> down one position: it gives the string found there and the
  field name the traversal visits it with, and nothing when the traversal stops on the
  way at a sensitive field name, or when there is no string at the position.
\<close>

datatype step = Key string | Index nat






subsection \<open>Predicates used in the proofs\<close>


text \<open>A value, list of items or list of entries that the traversal returns as it is.\<close>

definition stableValue :: "markupFilter \<Rightarrow> RequiredConfig \<Rightarrow> jsval \<Rightarrow> string option \<Rightarrow> bool" where
  "stableValue F cfg v fieldName =
     (\<forall>md. \<exists>md'. Sanitizer_sanitizeValue F cfg v fieldName md = (Inr v, md'))"

definition stableItems :: "markupFilter \<Rightarrow> RequiredConfig \<Rightarrow> jsval list \<Rightarrow> nat \<Rightarrow> string option \<Rightarrow> bool" where
  "stableItems F cfg items index fieldName =
     (\<forall>md. \<exists>md'. sanitizeItems F cfg items index fieldName md = (Inr items, md'))"

definition stableEntries ::
  "markupFilter \<Rightarrow> RequiredConfig \<Rightarrow> (string \<times> jsval) list \<Rightarrow> string option \<Rightarrow> bool" where
  "stableEntries F cfg es fieldName =
     (\<forall>sanitizedObj md. fst ` set es \<inter> fst ` set sanitizedObj = {} \<longrightarrow>
        (\<exists>md'. sanitizeEntries F cfg es fieldName sanitizedObj md = (Inr (sanitizedObj @ es), md')))"

section \<open>Properties\<close>

declare Sanitizer_sanitizeValue.simps [simp del]

lemmas eval_defs =
  sanitizeRequestData_def sanitizeString_def Sanitizer_sanitize_def emptyConfig_def Sanitizer_def
  orDefault_def initialMetadata_def isSensitive_def truthy_def fullFieldName_def indexFieldName_def
  SENSITIVE_FIELDS_def Sanitizer_sanitizeString_def assignProp_def defineProp_def
  truncationWarning_def failureMessage_def orUnknown_def string_of_int_def substring0_def
  Sanitizer_sanitizeValue.simps string_of_nat.simps digit_def mkPurifyConfig_def Let_def

subsection \<open>The traversal, case by case\<close>

lemma sanitizeValue_skip:
  "v = JNull \<or> v = JUndefined \<or> isSensitive fieldName \<Longrightarrow>
   Sanitizer_sanitizeValue F cfg v fieldName md = (Inr v, md)"
  by (auto simp: Sanitizer_sanitizeValue.simps)

lemma sanitizeValue_JStr:
  "\<not> isSensitive fieldName \<Longrightarrow>
   Sanitizer_sanitizeValue F cfg (JStr s) fieldName md =
     (case Sanitizer_sanitizeString F cfg s fieldName md of
        (Inl e, md') \<Rightarrow> (Inl e, md')
      | (Inr out, md') \<Rightarrow> (Inr (JStr out), md'))"
  by (simp add: Sanitizer_sanitizeValue.simps)

lemma sanitizeValue_JArr:
  "\<not> isSensitive fieldName \<Longrightarrow>
   Sanitizer_sanitizeValue F cfg (JArr items) fieldName md =
     (case sanitizeItems F cfg items 0 fieldName md of
        (Inl e, md') \<Rightarrow> (Inl e, md')
      | (Inr items', md') \<Rightarrow> (Inr (JArr items'), md'))"
  by (simp add: Sanitizer_sanitizeValue.simps)

lemma sanitizeValue_JObj:
  "\<not> isSensitive fieldName \<Longrightarrow>
   Sanitizer_sanitizeValue F cfg (JObj es) fieldName md =
     (case sanitizeEntries F cfg es fieldName [] md of
        (Inl e, md') \<Rightarrow> (Inl e, md')
      | (Inr sanitizedObj, md') \<Rightarrow> (Inr (JObj sanitizedObj), md'))"
  by (simp add: Sanitizer_sanitizeValue.simps)

lemma sanitizeValue_JDate:
  "\<not> isSensitive fieldName \<Longrightarrow>
   Sanitizer_sanitizeValue F cfg (JDate t) fieldName md = (Inr (JObj []), md)"
  by (simp add: Sanitizer_sanitizeValue.simps)

lemma sanitizeValue_JRegExp:
  "\<not> isSensitive fieldName \<Longrightarrow>
   Sanitizer_sanitizeValue F cfg (JRegExp src flags) fieldName md = (Inr (JObj []), md)"
  by (simp add: Sanitizer_sanitizeValue.simps)

lemma sanitizeValue_scalar:
  "Sanitizer_sanitizeValue F cfg (JBool b) fieldName md = (Inr (JBool b), md)"
  "Sanitizer_sanitizeValue F cfg (JNum n) fieldName md = (Inr (JNum n), md)"
  "Sanitizer_sanitizeValue F cfg JNull fieldName md = (Inr JNull, md)"
  "Sanitizer_sanitizeValue F cfg JUndefined fieldName md = (Inr JUndefined, md)"
  by (simp_all add: Sanitizer_sanitizeValue.simps)

lemmas sanitizeValue_eqs = sanitizeValue_JStr sanitizeValue_JArr sanitizeValue_JObj
  sanitizeValue_JDate sanitizeValue_JRegExp sanitizeValue_scalar

lemma sanitizeString_depends:
  assumes same: "mkPurifyConfig cfg1 = mkPurifyConfig cfg2"
    and limit: "cfg_maxStringLength cfg1 = cfg_maxStringLength cfg2"
  shows "Sanitizer_sanitizeString F cfg1 s fieldName md = Sanitizer_sanitizeString F cfg2 s fieldName md"
  unfolding Sanitizer_sanitizeString_def same limit by (rule refl)

subsection \<open>Resolving a named profile\<close>

lemma getConfig_unknown:
  "name \<notin> fst ` set SANITIZATION_CONFIGS \<Longrightarrow> name \<notin> set objectPrototypeKeys \<Longrightarrow>
   getConfig name = Inl (Error (''Unknown sanitization config: '' @ name))"
  by (simp add: getConfig_def map_of_eq_None_iff[THEN iffD2])

lemma getConfig_nonexistent:
  "getConfig ''nonexistent'' = Inl (Error ''Unknown sanitization config: nonexistent'')"
  by (simp add: getConfig_def SANITIZATION_CONFIGS_def objectPrototypeKeys_def)

text \<open>
  Claim C7 says that resolving an unknown profile name fails before anything is
  sanitized. The name \<open>toString\<close> is none of the seven profiles, yet the lookup finds the
  function every object inherits, the guard lets it pass, and \<open>getConfig\<close> returns the
  empty configuration instead of throwing.
\<close>

theorem getConfig_inherited_name:
  "map_of SANITIZATION_CONFIGS ''toString'' = None \<and> getConfig ''toString'' = Inr emptyConfig"
  by (simp add: getConfig_def SANITIZATION_CONFIGS_def objectPrototypeKeys_def)

subsection \<open>Sensitive fields\<close>

text \<open>
  Claim C1 says that a field whose own key is sensitive is returned untouched wherever it
  is nested. The membership test is made on the dotted path: for \<open>password\<close> under
  \<open>user\<close> the path is \<open>user.password\<close>, which is not in the list, so with a limit of 3
  characters the value \<open>secret\<close> is cut to \<open>sec\<close>, a warning is recorded and the filter is
  run on it, whatever the filter is.
\<close>

theorem nested_sensitive_field_is_sanitized:
  "sanitizeRequestData F nestedPasswordInput shortConfig =
     (case F (mkPurifyConfig (Sanitizer shortConfig)) ''sec'' of
        Inr out \<Rightarrow>
          Inr \<lparr> data = JObj [(''user'', JObj [(''password'', JStr out)])],
                sanitized = True,
                warnings = [''String in field '' @ [CHR 0x27] @ ''user.password'' @ [CHR 0x27]
                              @ '' truncated from 6 to 3 characters''],
                errors = None \<rparr>
      | Inl err \<Rightarrow>
          Inl (SanitizationError (failureMessage (Some ''user.password'') err)
                 (Some ''user.password'')))"
proof (cases "F (mkPurifyConfig (Sanitizer shortConfig)) ''sec''")
  case (Inl err)
  then show ?thesis
    by (simp add: eval_defs nestedPasswordInput_def shortConfig_def)
next
  case (Inr out)
  then show ?thesis
    by (simp add: eval_defs nestedPasswordInput_def shortConfig_def)
qed

subsection \<open>The filter invocation\<close>

text \<open>
  Claim C2 says that the filter receives the per-tag attribute mapping, an attribute being
  permitted only for its own tag. The code concatenates the lists of all tags into the
  single list \<open>ALLOWED_ATTR\<close>: a profile that permits \<open>href\<close> and \<open>src\<close> on \<open>a\<close> only and a
  profile that permits them on \<open>img\<close> only give the same filter configuration, and
  \<open>Sanitizer.sanitizeString\<close> cannot tell them apart.
\<close>

theorem attribute_mapping_is_flattened:
  "allowedAttributes attrsOnAnchor \<noteq> allowedAttributes attrsOnImage
   \<and> ALLOWED_ATTR (mkPurifyConfig (Sanitizer attrsOnAnchor)) = [''href'', ''src'']
   \<and> mkPurifyConfig (Sanitizer attrsOnAnchor) = mkPurifyConfig (Sanitizer attrsOnImage)
   \<and> Sanitizer_sanitizeString F (Sanitizer attrsOnAnchor) s fieldName md
       = Sanitizer_sanitizeString F (Sanitizer attrsOnImage) s fieldName md"
proof -
  have differ: "allowedAttributes attrsOnAnchor \<noteq> allowedAttributes attrsOnImage"
    by (simp add: attrsOnAnchor_def attrsOnImage_def emptyConfig_def)
  have attr: "ALLOWED_ATTR (mkPurifyConfig (Sanitizer attrsOnAnchor)) = [''href'', ''src'']"
    by (simp add: attrsOnAnchor_def emptyConfig_def Sanitizer_def orDefault_def mkPurifyConfig_def)
  have same: "mkPurifyConfig (Sanitizer attrsOnAnchor) = mkPurifyConfig (Sanitizer attrsOnImage)"
    by (simp add: attrsOnAnchor_def attrsOnImage_def emptyConfig_def Sanitizer_def orDefault_def
          mkPurifyConfig_def)
  have limit: "cfg_maxStringLength (Sanitizer attrsOnAnchor) = cfg_maxStringLength (Sanitizer attrsOnImage)"
    by (simp add: attrsOnAnchor_def attrsOnImage_def emptyConfig_def Sanitizer_def orDefault_def)
  from same limit
  have "Sanitizer_sanitizeString F (Sanitizer attrsOnAnchor) s fieldName md
          = Sanitizer_sanitizeString F (Sanitizer attrsOnImage) s fieldName md"
    by (rule sanitizeString_depends)
  with differ attr same show ?thesis
    by blast
qed

subsection \<open>Shape of the result\<close>

text \<open>
  Claim C3 says that the output has the keys of the input at every level and that only
  string leaves change. Two inputs without any string show otherwise, for every filter and
  configuration: the assignment to the key \<open>__proto__\<close> creates no property, so that key
  is missing from the output, and a \<open>Date\<close> leaf comes back as an empty object.
\<close>

theorem shape_not_preserved:
  "sanitizeRequestData F (JObj [(''__proto__'', JObj [(''isAdmin'', JBool True)]), (''a'', JNum 2)]) config
     = Inr \<lparr> data = JObj [(''a'', JNum 2)], sanitized = False, warnings = [], errors = None \<rparr>
   \<and> sanitizeRequestData F (JObj [(''when'', JDate 0)]) config
     = Inr \<lparr> data = JObj [(''when'', JObj [])], sanitized = False, warnings = [], errors = None \<rparr>"
  by (simp add: eval_defs)

subsection \<open>Dates and regular expressions\<close>




subsection \<open>Errors of a returned result\<close>

lemma sanitizeString_errors:
  "Sanitizer_sanitizeString F cfg s fn md = (Inr out, md') \<Longrightarrow> md_errors md' = md_errors md"
  by (auto simp: Sanitizer_sanitizeString_def Let_def split: sum.splits if_splits)

lemma errors_unchanged:
  "Sanitizer_sanitizeValue F cfg v fn md = (Inr v', md') \<Longrightarrow> md_errors md' = md_errors md"
  "sanitizeItems F cfg items i fn md = (Inr items', md') \<Longrightarrow> md_errors md' = md_errors md"
  "sanitizeEntries F cfg es fn acc md = (Inr out, md') \<Longrightarrow> md_errors md' = md_errors md"
proof (induction F cfg v fn md and F cfg items i fn md and F cfg es fn acc md
       arbitrary: v' md' and items' md' and out md'
       rule: Sanitizer_sanitizeValue_sanitizeItems_sanitizeEntries.induct)
  case (1 F cfg v fieldName md)
  show ?case
  proof (cases "v = JNull \<or> v = JUndefined \<or> isSensitive fieldName")
    case True
    with "1.prems" show ?thesis
      by (simp add: sanitizeValue_skip)
  next
    case False
    then have ns: "\<not> isSensitive fieldName" and nn: "\<not> (v = JNull \<or> v = JUndefined)"
      by simp_all
    show ?thesis
    proof (cases v)
      case (JStr s)
      with "1.prems" ns show ?thesis
        by (auto simp: sanitizeValue_JStr split: prod.splits sum.splits dest: sanitizeString_errors)
    next
      case (JArr items)
      with "1.prems" ns obtain items' where "sanitizeItems F cfg items 0 fieldName md = (Inr items', md')"
        by (auto simp: sanitizeValue_JArr split: prod.splits sum.splits)
      with "1.IH"(1)[OF nn ns JArr] show ?thesis .
    next
      case (JObj es)
      with "1.prems" ns obtain out where "sanitizeEntries F cfg es fieldName [] md = (Inr out, md')"
        by (auto simp: sanitizeValue_JObj split: prod.splits sum.splits)
      with "1.IH"(2)[OF nn ns JObj] show ?thesis .
    qed (use "1.prems" ns in \<open>simp_all add: sanitizeValue_eqs\<close>)
  qed
next
  case (2 F cfg index fieldName md)
  then show ?case by simp
next
  case (3 F cfg item rest index fieldName md)
  from "3.prems" obtain item' md1 rest' where
    a: "Sanitizer_sanitizeValue F cfg item (Some (indexFieldName fieldName index)) md = (Inr item', md1)" and
    b: "sanitizeItems F cfg rest (index + 1) fieldName md1 = (Inr rest', md')"
    by (auto split: prod.splits sum.splits)
  from "3.IH"(1)[OF a] have "md_errors md1 = md_errors md" .
  moreover from "3.IH"(2)[OF a[symmetric] refl b] have "md_errors md' = md_errors md1" .
  ultimately show ?case by simp
next
  case (4 F cfg fieldName sanitizedObj md)
  then show ?case by simp
next
  case (5 F cfg key val rest fieldName sanitizedObj md)
  from "5.prems" obtain val' md1 where
    a: "Sanitizer_sanitizeValue F cfg val (Some (fullFieldName fieldName key)) md = (Inr val', md1)" and
    b: "sanitizeEntries F cfg rest fieldName (assignProp sanitizedObj key val') md1 = (Inr out, md')"
    by (auto split: prod.splits sum.splits)
  from "5.IH"(1)[OF a] have "md_errors md1 = md_errors md" .
  moreover from "5.IH"(2)[OF a[symmetric] refl b] have "md_errors md' = md_errors md1" .
  ultimately show ?case by simp
qed

text \<open>
  Claim C10: when \<open>Sanitizer.sanitize\<close> returns, the \<open>errors\<close> field of the result is
  undefined, since a message is appended to the error list only where the code throws.
\<close>

theorem returned_errors_undefined:
  assumes "fst (Sanitizer_sanitize F cfg input) = Inr r"
  shows "errors r = None"
proof -
  from assms have nu: "input \<noteq> JUndefined"
    by (auto simp: Sanitizer_sanitize_def)
  obtain res md where run: "Sanitizer_sanitizeValue F cfg input None initialMetadata = (res, md)"
    by (cases "Sanitizer_sanitizeValue F cfg input None initialMetadata")
  show ?thesis
  proof (cases res)
    case (Inl e)
    with assms nu run show ?thesis
      by (cases e) (simp_all add: Sanitizer_sanitize_def)
  next
    case (Inr v')
    with run have "md_errors md = md_errors initialMetadata"
      by (simp add: errors_unchanged(1))
    then have "md_errors md = []"
      by (simp add: initialMetadata_def)
    with assms nu run Inr show ?thesis
      by (auto simp: Sanitizer_sanitize_def)
  qed
qed

text \<open>A run that returns, with a warning and no errors.\<close>

theorem returned_errors_undefined_witness:
  "fst (Sanitizer_sanitize identityFilter (Sanitizer shortConfig) nestedPasswordInput)
     = Inr \<lparr> data = JObj [(''user'', JObj [(''password'', JStr ''sec'')])],
             sanitized = True,
             warnings = [''String in field '' @ [CHR 0x27] @ ''user.password'' @ [CHR 0x27]
                              @ '' truncated from 6 to 3 characters''],
             errors = None \<rparr>
   \<and> errors (projr (fst (Sanitizer_sanitize identityFilter (Sanitizer shortConfig) nestedPasswordInput))) = None"
proof -
  have run: "fst (Sanitizer_sanitize identityFilter (Sanitizer shortConfig) nestedPasswordInput)
     = Inr \<lparr> data = JObj [(''user'', JObj [(''password'', JStr ''sec'')])],
             sanitized = True,
             warnings = [''String in field '' @ [CHR 0x27] @ ''user.password'' @ [CHR 0x27]
                              @ '' truncated from 6 to 3 characters''],
             errors = None \<rparr>"
    by (simp add: eval_defs nestedPasswordInput_def shortConfig_def identityFilter_def)
  from returned_errors_undefined [OF run] run show ?thesis
    by simp
qed

subsection \<open>Merging configurations\<close>

lemma map_of_replace_other:
  "t \<noteq> k \<Longrightarrow> map_of (map (\<lambda>(k', x). if k' = k then (k', v) else (k', x)) obj) t = map_of obj t"
  by (induction obj) (simp_all add: case_prod_beta)

lemma map_of_replace_same:
  "k \<in> fst ` set obj \<Longrightarrow> map_of (map (\<lambda>(k', x). if k' = k then (k', v) else (k', x)) obj) k = Some v"
  by (induction obj) (auto simp: case_prod_beta)

lemma map_of_defineProp: "map_of (defineProp obj k v) t = (if t = k then Some v else map_of obj t)"
proof (cases "k \<in> fst ` set obj")
  case True
  then show ?thesis
    by (simp add: defineProp_def map_of_replace_other map_of_replace_same)
next
  case False
  then have "map_of obj k = None"
    by (simp add: map_of_eq_None_iff)
  with False show ?thesis
    by (simp add: defineProp_def map_add_def split: option.splits)
qed

lemma map_of_spreadObj:
  "distinct (map fst source) \<Longrightarrow>
   map_of (spreadObj target source) t =
     (case map_of source t of Some x \<Rightarrow> Some x | None \<Rightarrow> map_of target t)"
proof (induction source arbitrary: target)
  case Nil
  then show ?case by (simp add: spreadObj_def)
next
  case (Cons e source)
  obtain k v where e: "e = (k, v)" by (cases e)
  from Cons.prems e have d: "distinct (map fst source)" and nk: "map_of source k = None"
    by (auto simp: map_of_eq_None_iff)
  have step: "spreadObj target (e # source) = spreadObj (defineProp target k v) source"
    by (simp add: spreadObj_def e)
  show ?case
    unfolding step Cons.IH[OF d]
    using nk by (auto simp: e map_of_defineProp split: option.splits)
qed

text \<open>
  Claim C8: \<open>createCustomConfig\<close> returns a configuration in which every field other than
  \<open>allowedAttributes\<close> is the one of the overrides when the overrides have that property and
  the one of the base otherwise, and in which \<open>allowedAttributes\<close> maps a tag to the list the
  overrides give it, or else to the list the base gives it. The keys of an object are
  distinct, which is the first hypothesis; the second says that the base, a name or a
  configuration, resolves.
\<close>

theorem createCustomConfig_merge:
  assumes dist: "distinct (map fst (propObj (allowedAttributes overrides)))"
    and base: "(case base of Inl name \<Rightarrow> getConfig name | Inr config \<Rightarrow> Inr config) = Inr baseConfig"
  shows "\<exists>r attrs. createCustomConfig base overrides = Inr r
     \<and> allowedTags r = (if allowedTags overrides = Absent then allowedTags baseConfig else allowedTags overrides)
     \<and> stripIgnoreTag r = (if stripIgnoreTag overrides = Absent then stripIgnoreTag baseConfig else stripIgnoreTag overrides)
     \<and> stripIgnoreTagBody r = (if stripIgnoreTagBody overrides = Absent then stripIgnoreTagBody baseConfig else stripIgnoreTagBody overrides)
     \<and> allowEmptyTags r = (if allowEmptyTags overrides = Absent then allowEmptyTags baseConfig else allowEmptyTags overrides)
     \<and> maxTagDepth r = (if maxTagDepth overrides = Absent then maxTagDepth baseConfig else maxTagDepth overrides)
     \<and> maxStringLength r = (if maxStringLength overrides = Absent then maxStringLength baseConfig else maxStringLength overrides)
     \<and> allowedAttributes r = Val attrs
     \<and> (\<forall>tag. map_of attrs tag =
           (case map_of (propObj (allowedAttributes overrides)) tag of
              Some list \<Rightarrow> Some list
            | None \<Rightarrow> map_of (propObj (allowedAttributes baseConfig)) tag))"
proof -
  have sp: "spreadProp b ov = (if ov = Absent then b else ov)" for b ov :: "'a optField"
    by (cases ov) (simp_all add: spreadProp_def)
  from base show ?thesis
    by (simp add: createCustomConfig_def sp map_of_spreadObj[OF dist])
qed

text \<open>
  Overriding the profile \<open>base\<close>: the list for \<open>a\<close> is replaced, \<open>img\<close> is added, the length
  limit is replaced and the other fields are those of the base.
\<close>

theorem createCustomConfig_merge_witness:
  "distinct (map fst (propObj (allowedAttributes imageOverrides)))
   \<and> getConfig ''base'' = Inr BASE_CONFIG
   \<and> createCustomConfig (Inl ''base'') imageOverrides = Inr (BASE_CONFIG\<lparr>
         allowedAttributes := Val [(''a'', [''href'']), (''img'', [''src''])],
         maxStringLength := Val 1000 \<rparr>)"
proof -
  have h1: "distinct (map fst (propObj (allowedAttributes imageOverrides)))"
    by (simp add: imageOverrides_def emptyConfig_def propObj_def)
  have h2: "getConfig ''base'' = Inr BASE_CONFIG"
    by (simp add: getConfig_def SANITIZATION_CONFIGS_def)
  then have h2': "(case Inl ''base'' of Inl name \<Rightarrow> getConfig name | Inr config \<Rightarrow> Inr config) = Inr BASE_CONFIG"
    by simp
  from createCustomConfig_merge [OF h1 h2'] h1 h2 show ?thesis
    by (simp add: createCustomConfig_def imageOverrides_def emptyConfig_def BASE_CONFIG_def
          propObj_def spreadProp_def spreadObj_def defineProp_def)
qed

subsection \<open>Filter failures\<close>











subsection \<open>Idempotence\<close>

lemma sanitizeString_Inr_filter:
  "Sanitizer_sanitizeString F cfg s fieldName md = (Inr out, md') \<Longrightarrow>
   F (mkPurifyConfig cfg) (truncateInput cfg s) = Inr out"
  by (cases "F (mkPurifyConfig cfg) (truncateInput cfg s)")
     (auto simp: Sanitizer_sanitizeString_def truncateInput_def Let_def)

lemma sanitizeString_filter_Inr:
  "F (mkPurifyConfig cfg) (truncateInput cfg s) = Inr out \<Longrightarrow>
   \<exists>md'. Sanitizer_sanitizeString F cfg s fieldName md = (Inr out, md')"
  by (auto simp: Sanitizer_sanitizeString_def truncateInput_def Let_def)

lemma truncateInput_length: "length (truncateInput cfg s) \<le> nat (cfg_maxStringLength cfg)"
proof (cases "int (length s) > cfg_maxStringLength cfg")
  case True
  then show ?thesis
    by (simp add: truncateInput_def substring0_def)
next
  case False
  then have "length s \<le> nat (cfg_maxStringLength cfg)"
    by linarith
  with False show ?thesis
    by (simp add: truncateInput_def)
qed

lemma truncateInput_short:
  assumes "length s \<le> nat (cfg_maxStringLength cfg)"
  shows "truncateInput cfg s = s"
proof -
  from assms have t: "take (nat (cfg_maxStringLength cfg)) s = s"
    by simp
  show ?thesis
    unfolding truncateInput_def substring0_def t by simp
qed

lemma string_second_pass:
  assumes idem: "filterIdempotent F cfg" and lim: "filterWithinLimit F cfg"
    and run: "Sanitizer_sanitizeString F cfg s fieldName md = (Inr out, md')"
  shows "\<exists>md3. Sanitizer_sanitizeString F cfg out fieldName md2 = (Inr out, md3)"
proof -
  from run have f: "F (mkPurifyConfig cfg) (truncateInput cfg s) = Inr out"
    by (rule sanitizeString_Inr_filter)
  with lim truncateInput_length[of cfg s] have "length out \<le> nat (cfg_maxStringLength cfg)"
    unfolding filterWithinLimit_def by blast
  then have "truncateInput cfg out = out"
    by (rule truncateInput_short)
  moreover from idem f have "F (mkPurifyConfig cfg) out = Inr out"
    unfolding filterIdempotent_def by blast
  ultimately show ?thesis
    by (simp add: sanitizeString_filter_Inr)
qed

lemma assignProp_fresh:
  "key \<noteq> ''__proto__'' \<Longrightarrow> key \<notin> fst ` set obj \<Longrightarrow> assignProp obj key v = obj @ [(key, v)]"
  by (simp add: assignProp_def defineProp_def)

lemma second_pass:
  "filterIdempotent F cfg \<Longrightarrow> filterWithinLimit F cfg \<Longrightarrow> wellFormed v \<Longrightarrow>
   Sanitizer_sanitizeValue F cfg v fieldName md = (Inr v', md') \<Longrightarrow>
   wellFormed v' \<and> stableValue F cfg v' fieldName"
  "filterIdempotent F cfg \<Longrightarrow> filterWithinLimit F cfg \<Longrightarrow> list_all wellFormed items \<Longrightarrow>
   sanitizeItems F cfg items index fieldName md = (Inr items', md') \<Longrightarrow>
   list_all wellFormed items' \<and> stableItems F cfg items' index fieldName"
  "filterIdempotent F cfg \<Longrightarrow> filterWithinLimit F cfg \<Longrightarrow>
   distinct (map fst es) \<Longrightarrow> list_all (\<lambda>e. wellFormed (snd e)) es \<Longrightarrow>
   fst ` set es \<inter> fst ` set sanitizedObj = {} \<Longrightarrow>
   sanitizeEntries F cfg es fieldName sanitizedObj md = (Inr out, md') \<Longrightarrow>
   \<exists>es'. out = sanitizedObj @ es' \<and> fst ` set es' \<subseteq> fst ` set es \<and> distinct (map fst es')
     \<and> ''__proto__'' \<notin> fst ` set es' \<and> list_all (\<lambda>e. wellFormed (snd e)) es'
     \<and> stableEntries F cfg es' fieldName"
proof (induction F cfg v fieldName md and F cfg items index fieldName md and F cfg es fieldName sanitizedObj md
       arbitrary: v' md' and items' md' and out md'
       rule: Sanitizer_sanitizeValue_sanitizeItems_sanitizeEntries.induct)
  case (1 F cfg v fieldName md)
  note idem = "1.prems"(1) and lim = "1.prems"(2) and wf = "1.prems"(3) and run = "1.prems"(4)
  show ?case
  proof (cases "v = JNull \<or> v = JUndefined \<or> isSensitive fieldName")
    case True
    with run have "v' = v"
      by (simp add: sanitizeValue_skip)
    with True wf show ?thesis
      by (simp add: stableValue_def sanitizeValue_skip)
  next
    case False
    then have ns: "\<not> isSensitive fieldName" and nn: "\<not> (v = JNull \<or> v = JUndefined)"
      by simp_all
    show ?thesis
    proof (cases v)
      case (JStr s)
      with run ns obtain out where
        s: "Sanitizer_sanitizeString F cfg s fieldName md = (Inr out, md')" and v': "v' = JStr out"
        by (auto simp: sanitizeValue_JStr split: prod.splits sum.splits)
      have "\<exists>md3. Sanitizer_sanitizeValue F cfg (JStr out) fieldName md2 = (Inr (JStr out), md3)" for md2
        using string_second_pass[OF idem lim s, of md2] ns
        by (auto simp: sanitizeValue_JStr)
      with v' show ?thesis
        by (simp add: stableValue_def)
    next
      case (JArr items)
      with run ns obtain items' where
        r: "sanitizeItems F cfg items 0 fieldName md = (Inr items', md')" and v': "v' = JArr items'"
        by (auto simp: sanitizeValue_JArr split: prod.splits sum.splits)
      from wf JArr have "list_all wellFormed items"
        by simp
      from "1.IH"(1)[OF nn ns JArr idem lim this r]
      have w: "list_all wellFormed items'" and st: "stableItems F cfg items' 0 fieldName"
        by simp_all
      have "\<exists>md3. Sanitizer_sanitizeValue F cfg (JArr items') fieldName md2 = (Inr (JArr items'), md3)" for md2
        using st[unfolded stableItems_def, rule_format, of md2] ns
        by (auto simp: sanitizeValue_JArr)
      with v' w show ?thesis
        by (simp add: stableValue_def)
    next
      case (JObj es)
      with run ns obtain out where
        r: "sanitizeEntries F cfg es fieldName [] md = (Inr out, md')" and v': "v' = JObj out"
        by (auto simp: sanitizeValue_JObj split: prod.splits sum.splits)
      from wf JObj have d: "distinct (map fst es)" and w: "list_all (\<lambda>e. wellFormed (snd e)) es"
        by simp_all
      have disj: "fst ` set es \<inter> fst ` set ([] :: (string \<times> jsval) list) = {}"
        by simp
      from "1.IH"(2)[OF nn ns JObj idem lim d w disj r]
      have d': "distinct (map fst out)" and w': "list_all (\<lambda>e. wellFormed (snd e)) out"
        and st: "stableEntries F cfg out fieldName"
        by auto
      have "\<exists>md3. Sanitizer_sanitizeValue F cfg (JObj out) fieldName md2 = (Inr (JObj out), md3)" for md2
        using st[unfolded stableEntries_def, rule_format, of "[]" md2] ns
        by (auto simp: sanitizeValue_JObj)
      with v' d' w' show ?thesis
        by (simp add: stableValue_def)
    next
      case (JDate t)
      with run ns have "v' = JObj []"
        by (simp add: sanitizeValue_JDate)
      with ns show ?thesis
        by (simp add: stableValue_def sanitizeValue_JObj)
    next
      case (JRegExp src flags)
      with run ns have "v' = JObj []"
        by (simp add: sanitizeValue_JRegExp)
      with ns show ?thesis
        by (simp add: stableValue_def sanitizeValue_JObj)
    next
      case (JBool b)
      with run show ?thesis
        by (auto simp: stableValue_def sanitizeValue_scalar)
    next
      case (JNum n)
      with run show ?thesis
        by (auto simp: stableValue_def sanitizeValue_scalar)
    qed (use nn in simp_all)
  qed
next
  case (2 F cfg index fieldName md)
  then show ?case
    by (simp add: stableItems_def)
next
  case (3 F cfg item rest index fieldName md)
  note idem = "3.prems"(1) and lim = "3.prems"(2) and wf = "3.prems"(3) and run = "3.prems"(4)
  from run obtain item' md1 rest' where
    a: "Sanitizer_sanitizeValue F cfg item (Some (indexFieldName fieldName index)) md = (Inr item', md1)" and
    b: "sanitizeItems F cfg rest (index + 1) fieldName md1 = (Inr rest', md')" and
    items': "items' = item' # rest'"
    by (auto split: prod.splits sum.splits)
  from wf have wi: "wellFormed item" and wr: "list_all wellFormed rest"
    by simp_all
  from "3.IH"(1)[OF idem lim wi a]
  have w1: "wellFormed item'" and s1: "stableValue F cfg item' (Some (indexFieldName fieldName index))"
    by simp_all
  from "3.IH"(2)[OF a[symmetric] refl idem lim wr b]
  have w2: "list_all wellFormed rest'" and s2: "stableItems F cfg rest' (index + 1) fieldName"
    by simp_all
  have "\<exists>md3. sanitizeItems F cfg (item' # rest') index fieldName md2 = (Inr (item' # rest'), md3)" for md2
  proof -
    from s1 obtain m1 where
      "Sanitizer_sanitizeValue F cfg item' (Some (indexFieldName fieldName index)) md2 = (Inr item', m1)"
      unfolding stableValue_def by blast
    moreover from s2 obtain m2 where
      "sanitizeItems F cfg rest' (index + 1) fieldName m1 = (Inr rest', m2)"
      unfolding stableItems_def by blast
    ultimately show ?thesis
      by simp
  qed
  with items' w1 w2 show ?case
    by (simp add: stableItems_def)
next
  case (4 F cfg fieldName sanitizedObj md)
  then show ?case
    by (simp add: stableEntries_def)
next
  case (5 F cfg key val rest fieldName sanitizedObj md)
  note idem = "5.prems"(1) and lim = "5.prems"(2) and dist = "5.prems"(3) and wf = "5.prems"(4)
    and disj = "5.prems"(5) and run = "5.prems"(6)
  from run obtain val' md1 where
    a: "Sanitizer_sanitizeValue F cfg val (Some (fullFieldName fieldName key)) md = (Inr val', md1)" and
    b: "sanitizeEntries F cfg rest fieldName (assignProp sanitizedObj key val') md1 = (Inr out, md')"
    by (auto split: prod.splits sum.splits)
  from wf have wv: "wellFormed val" and wr: "list_all (\<lambda>e. wellFormed (snd e)) rest"
    by simp_all
  from dist have dr: "distinct (map fst rest)" and kr: "key \<notin> fst ` set rest"
    by auto
  from disj have ko: "key \<notin> fst ` set sanitizedObj" and ro: "fst ` set rest \<inter> fst ` set sanitizedObj = {}"
    by auto
  from "5.IH"(1)[OF idem lim wv a]
  have w1: "wellFormed val'" and s1: "stableValue F cfg val' (Some (fullFieldName fieldName key))"
    by simp_all
  show ?case
  proof (cases "key = ''__proto__''")
    case True
    then have ap: "assignProp sanitizedObj key val' = sanitizedObj"
      by (simp add: assignProp_def)
    from ro have ro': "fst ` set rest \<inter> fst ` set (assignProp sanitizedObj key val') = {}"
      unfolding ap .
    from "5.IH"(2)[OF a[symmetric] refl idem lim dr wr ro' b]
    obtain es' where "out = sanitizedObj @ es'" "fst ` set es' \<subseteq> fst ` set rest" "distinct (map fst es')"
      "''__proto__'' \<notin> fst ` set es'" "list_all (\<lambda>e. wellFormed (snd e)) es'" "stableEntries F cfg es' fieldName"
      unfolding ap by auto
    then show ?thesis
      by (intro exI[of _ es']) auto
  next
    case False
    have ap: "assignProp sanitizedObj key val' = sanitizedObj @ [(key, val')]"
      by (rule assignProp_fresh[OF False ko])
    from ro kr have ro': "fst ` set rest \<inter> fst ` set (assignProp sanitizedObj key val') = {}"
      unfolding ap by auto
    from "5.IH"(2)[OF a[symmetric] refl idem lim dr wr ro' b]
    obtain es' where es': "out = (sanitizedObj @ [(key, val')]) @ es'" "fst ` set es' \<subseteq> fst ` set rest"
      "distinct (map fst es')" "''__proto__'' \<notin> fst ` set es'"
      "list_all (\<lambda>e. wellFormed (snd e)) es'" "stableEntries F cfg es' fieldName"
      unfolding ap by auto
    have st: "stableEntries F cfg ((key, val') # es') fieldName"
      unfolding stableEntries_def
    proof (intro allI impI)
      fix acc2 :: "(string \<times> jsval) list" and md2
      assume fresh: "fst ` set ((key, val') # es') \<inter> fst ` set acc2 = {}"
      then have k2: "key \<notin> fst ` set acc2" and e2: "fst ` set es' \<inter> fst ` set (acc2 @ [(key, val')]) = {}"
        using es'(2) kr by auto
      from s1 obtain m1 where
        v: "Sanitizer_sanitizeValue F cfg val' (Some (fullFieldName fieldName key)) md2 = (Inr val', m1)"
        unfolding stableValue_def by blast
      have ap2: "assignProp acc2 key val' = acc2 @ [(key, val')]"
        by (rule assignProp_fresh[OF False k2])
      from es'(6)[unfolded stableEntries_def, rule_format, OF e2, of m1] obtain m2 where
        "sanitizeEntries F cfg es' fieldName (acc2 @ [(key, val')]) m1 = (Inr ((acc2 @ [(key, val')]) @ es'), m2)"
        by blast
      with v ap2 show "\<exists>md'. sanitizeEntries F cfg ((key, val') # es') fieldName acc2 md2
                          = (Inr (acc2 @ (key, val') # es'), md')"
        by simp
    qed
    from es' kr False w1 st show ?thesis
      by (intro exI[of _ "(key, val') # es'"]) auto
  qed
qed

lemma sanitizeValue_defined:
  "Sanitizer_sanitizeValue F cfg v fieldName md = (Inr JUndefined, md') \<Longrightarrow> v = JUndefined"
proof (cases "v = JNull \<or> v = JUndefined \<or> isSensitive fieldName")
  case True
  assume "Sanitizer_sanitizeValue F cfg v fieldName md = (Inr JUndefined, md')"
  with True show ?thesis
    by (simp add: sanitizeValue_skip)
next
  case False
  assume "Sanitizer_sanitizeValue F cfg v fieldName md = (Inr JUndefined, md')"
  with False show ?thesis
    by (cases v) (auto simp: sanitizeValue_eqs split: prod.splits sum.splits)
qed

lemma escapingFilter_no_lt:
  "CHR ''<'' \<notin> set (concat (map (\<lambda>c. if c = CHR ''<'' then ''&lt;'' else [c]) s))"
  by (induction s) auto

lemma escapingFilter_fixed:
  "CHR ''<'' \<notin> set s \<Longrightarrow> concat (map (\<lambda>c. if c = CHR ''<'' then ''&lt;'' else [c]) s) = s"
  by (induction s) auto

lemma escapingFilter_idempotent: "filterIdempotent escapingFilter cfg"
  by (auto simp: filterIdempotent_def escapingFilter_def escapingFilter_no_lt escapingFilter_fixed)

lemma strippingFilter_idempotent: "filterIdempotent strippingFilter cfg"
  by (simp add: filterIdempotent_def strippingFilter_def)

lemma strippingFilter_within_limit: "filterWithinLimit strippingFilter cfg"
proof -
  have "length (filter (\<lambda>c. c \<noteq> CHR ''<'') s) \<le> n" if "length s \<le> n" for s :: string and n
    using that length_filter_le[of "\<lambda>c. c \<noteq> CHR ''<''" s] by linarith
  then show ?thesis
    by (auto simp: filterWithinLimit_def strippingFilter_def)
qed

text \<open>
  Claim C5, as amended: sanitizing the value a first call returned gives that value
  again, provided the filter is idempotent and, in addition, never turns a string
  of at most \<open>maxStringLength\<close> characters into a longer one than that. (The input is an
  object tree with distinct keys in every object.)
\<close>

theorem sanitize_idempotent:
  assumes idem: "filterIdempotent F cfg" and lim: "filterWithinLimit F cfg"
    and wf: "wellFormed x"
    and first: "fst (Sanitizer_sanitize F cfg x) = Inr r"
  shows "\<exists>r'. fst (Sanitizer_sanitize F cfg (data r)) = Inr r' \<and> data r' = data r"
proof -
  from first have nu: "x \<noteq> JUndefined"
    by (auto simp: Sanitizer_sanitize_def)
  obtain res md where run: "Sanitizer_sanitizeValue F cfg x None initialMetadata = (res, md)"
    by (cases "Sanitizer_sanitizeValue F cfg x None initialMetadata")
  from first nu run obtain v' where res: "res = Inr v'" and d: "data r = v'"
    by (cases res) (auto simp: Sanitizer_sanitize_def split: error.splits)
  from sanitizeValue_defined[of F cfg x None initialMetadata md] run res nu have nu': "v' \<noteq> JUndefined"
    by auto
  from second_pass(1)[OF idem lim wf run[unfolded res]] have "stableValue F cfg v' None"
    by simp
  then obtain md3 where "Sanitizer_sanitizeValue F cfg v' None initialMetadata = (Inr v', md3)"
    unfolding stableValue_def by blast
  with nu' d show ?thesis
    by (simp add: Sanitizer_sanitize_def)
qed

text \<open>
  A nested input under a limit of three characters and a filter that deletes \<open><\<close>: the
  first call cuts and filters, the second returns the same value.
\<close>

theorem sanitize_idempotent_witness:
  "filterIdempotent strippingFilter (Sanitizer shortConfig)
   \<and> filterWithinLimit strippingFilter (Sanitizer shortConfig)
   \<and> wellFormed markupInput
   \<and> data (projr (fst (Sanitizer_sanitize strippingFilter (Sanitizer shortConfig) markupInput)))
       = JObj [(''bio'', JStr ''b>''), (''tags'', JArr [JStr ''i>'', JNum 7])]
   \<and> (\<exists>r'. fst (Sanitizer_sanitize strippingFilter (Sanitizer shortConfig)
                   (JObj [(''bio'', JStr ''b>''), (''tags'', JArr [JStr ''i>'', JNum 7])])) = Inr r'
           \<and> data r' = JObj [(''bio'', JStr ''b>''), (''tags'', JArr [JStr ''i>'', JNum 7])])"
proof -
  have h3: "wellFormed markupInput"
    by (simp add: markupInput_def)
  have h4: "fst (Sanitizer_sanitize strippingFilter (Sanitizer shortConfig) markupInput)
              = Inr \<lparr> data = JObj [(''bio'', JStr ''b>''), (''tags'', JArr [JStr ''i>'', JNum 7])],
                      sanitized = True,
                      warnings = [''String in field '' @ [CHR 0x27] @ ''bio'' @ [CHR 0x27]
                                    @ '' truncated from 8 to 3 characters''],
                      errors = None \<rparr>"
    by (simp add: eval_defs markupInput_def shortConfig_def strippingFilter_def)
  from sanitize_idempotent [OF strippingFilter_idempotent strippingFilter_within_limit h3 h4]
    strippingFilter_idempotent strippingFilter_within_limit h3 h4
  show ?thesis
    by simp
qed

text \<open>
  Claim C5 as stated assumes an idempotent filter only. The filter that writes \<open><\<close> as
  \<open>&lt;\<close> is idempotent; under a limit of three characters the first call returns
  \<open>a&lt;b\<close> for \<open>a<b\<close>, which the second call cuts to \<open>a&l\<close>.
\<close>

theorem sanitize_not_idempotent_counterexample:
  "filterIdempotent escapingFilter (Sanitizer shortConfig)
   \<and> sanitizeString escapingFilter ''a<b'' shortConfig
       = Inr \<lparr> data = JStr ''a&lt;b'', sanitized = True, warnings = [], errors = None \<rparr>
   \<and> sanitizeString escapingFilter ''a&lt;b'' shortConfig
       = Inr \<lparr> data = JStr ''a&l'', sanitized = True,
               warnings = [''String in field '' @ [CHR 0x27] @ ''unknown'' @ [CHR 0x27]
                             @ '' truncated from 6 to 3 characters''],
               errors = None \<rparr>"
  by (simp add: escapingFilter_idempotent)
     (simp add: eval_defs shortConfig_def escapingFilter_def)

subsection \<open>Truncation\<close>












end
